theory Spec2Isabelle
  imports Complex_Main "HOL-Library.Sublist"
begin

section \<open>Strings of the assistant core\<close>

text \<open>
  The assistant core is \<^verbatim>\<open>src/assistant_core/llm_service.py\<close>. Python \<^verbatim>\<open>str\<close> values are
  modelled as \<^typ>\<open>string\<close>, the UTF-8 bytes of the text. \<^verbatim>\<open>str.lower()\<close> is modelled on
  the ASCII capitals. Python also lowers capitals outside ASCII, to characters outside
  ASCII, with two exceptions: U+212A gives \<open>k\<close>, a letter of no keyword of the intent rules,
  and U+0130 gives \<open>i\<close> followed by U+0307, which continues no keyword. So the substring
  tests for the ASCII keywords give the same answers on the bytes as on Python's lowered
  text.
\<close>

definition lower_char :: "char \<Rightarrow> char" where
  "lower_char c =
     (let n = of_char c :: nat in if 65 \<le> n \<and> n \<le> 90 then char_of (n + 32) else c)"

definition lower :: "string \<Rightarrow> string" where
  "lower s = map lower_char s"

text \<open>Python's \<^verbatim>\<open>k in t\<close> on strings: \<open>k\<close> occurs in \<open>t\<close> as a contiguous substring.\<close>

fun startswith :: "string \<Rightarrow> string \<Rightarrow> bool" where
  "startswith t [] = True"
| "startswith [] (k # ks) = False"
| "startswith (c # t) (k # ks) = (c = k \<and> startswith t ks)"

fun contains :: "string \<Rightarrow> string \<Rightarrow> bool" where
  "contains [] k = (k = [])"
| "contains (c # t) k = (startswith (c # t) k \<or> contains t k)"

text \<open>
  \<^verbatim>\<open>str.strip()\<close> removes whitespace at both ends. The whitespace characters of Python,
  in UTF-8: tab to carriage return, the separators \<open>0x1C\<close> to \<open>0x1F\<close>, the space, U+0085,
  U+00A0, U+1680, U+2000 to U+200A, U+2028, U+2029, U+202F, U+205F and U+3000.
\<close>

definition whitespace :: "string list" where
  "whitespace =
     map (\<lambda>c. [c]) [CHR 0x09, CHR 0x0A, CHR 0x0B, CHR 0x0C, CHR 0x0D,
                    CHR 0x1C, CHR 0x1D, CHR 0x1E, CHR 0x1F, CHR 0x20]
     @ [[CHR 0xC2, CHR 0x85], [CHR 0xC2, CHR 0xA0], [CHR 0xE1, CHR 0x9A, CHR 0x80]]
     @ map (\<lambda>c. [CHR 0xE2, CHR 0x80, c])
         [CHR 0x80, CHR 0x81, CHR 0x82, CHR 0x83, CHR 0x84, CHR 0x85, CHR 0x86, CHR 0x87,
          CHR 0x88, CHR 0x89, CHR 0x8A, CHR 0xA8, CHR 0xA9, CHR 0xAF]
     @ [[CHR 0xE2, CHR 0x81, CHR 0x9F], [CHR 0xE3, CHR 0x80, CHR 0x80]]"

text \<open>
  \<open>strip_head toks n s\<close> removes from the head of \<open>s\<close> up to \<open>n\<close> of the byte sequences
  \<open>toks\<close>; the length of \<open>s\<close> is enough for all of them. The tail is stripped on the
  reversed bytes.
\<close>

fun strip_head :: "string list \<Rightarrow> nat \<Rightarrow> string \<Rightarrow> string" where
  "strip_head toks 0 s = s"
| "strip_head toks (Suc n) s =
     (case find (startswith s) toks of
        None \<Rightarrow> s
      | Some tok \<Rightarrow> strip_head toks n (drop (length tok) s))"

definition lstrip :: "string \<Rightarrow> string" where
  "lstrip s = strip_head whitespace (length s) s"

definition rstrip :: "string \<Rightarrow> string" where
  "rstrip s = rev (strip_head (map rev whitespace) (length s) (rev s))"

definition strip :: "string \<Rightarrow> string" where
  "strip s = rstrip (lstrip s)"

section \<open>Intent classification\<close>

text \<open>
  \<^verbatim>\<open>parse_intent_simple(text)\<close>, lines 109 to 115. The argument may be \<^verbatim>\<open>None\<close>:
  \<^verbatim>\<open>(text or "")\<close> replaces \<^verbatim>\<open>None\<close> (and the empty string) by the empty string.
\<close>

definition parse_intent_simple :: "string option \<Rightarrow> string" where
  "parse_intent_simple text =
     (let t = lower (case text of None \<Rightarrow> [] | Some s \<Rightarrow> s) in
      if contains t ''remind me'' \<or> contains t ''schedule'' \<or> contains t ''add''
        then ''add_schedule''
      else if contains t ''show schedule'' \<or> contains t ''what's my schedule''
              \<or> contains t ''my schedule''
        then ''show_schedule''
      else ''chat'')"

text \<open>
  The classification as the specification words it: an ordered table of rules, each a set
  of keywords and an intent; the first rule one of whose keywords occurs in the text, the
  case of the letters ignored, gives the intent, and \<open>chat\<close> is the default. Two
  characters are the same but for their case when they are equal or one is a capital
  \<open>A\<close> to \<open>Z\<close> and the other its small letter, 32 codes above.
\<close>

definition is_capital :: "char \<Rightarrow> bool" where
  "is_capital c = (65 \<le> (of_char c :: nat) \<and> (of_char c :: nat) \<le> 90)"

definition same_ignoring_case :: "char \<Rightarrow> char \<Rightarrow> bool" where
  "same_ignoring_case c d =
     (c = d \<or> (is_capital c \<and> (of_char d :: nat) = of_char c + 32)
            \<or> (is_capital d \<and> (of_char c :: nat) = of_char d + 32))"

fun startswith_ignoring_case :: "string \<Rightarrow> string \<Rightarrow> bool" where
  "startswith_ignoring_case t [] = True"
| "startswith_ignoring_case [] (k # ks) = False"
| "startswith_ignoring_case (c # t) (k # ks) =
     (same_ignoring_case c k \<and> startswith_ignoring_case t ks)"

fun contains_ignoring_case :: "string \<Rightarrow> string \<Rightarrow> bool" where
  "contains_ignoring_case [] k = (k = [])"
| "contains_ignoring_case (c # t) k =
     (startswith_ignoring_case (c # t) k \<or> contains_ignoring_case t k)"

definition intent_rules :: "(string list \<times> string) list" where
  "intent_rules =
     [([''remind me'', ''schedule'', ''add''], ''add_schedule''),
      ([''show schedule'', ''what's my schedule'', ''my schedule''], ''show_schedule'')]"

fun first_match :: "(string list \<times> string) list \<Rightarrow> string \<Rightarrow> string" where
  "first_match [] t = ''chat''"
| "first_match ((ks, intent) # rules) t =
     (if list_ex (contains_ignoring_case t) ks then intent else first_match rules t)"

definition classify_spec :: "string option \<Rightarrow> string" where
  "classify_spec text = first_match intent_rules (case text of None \<Rightarrow> [] | Some s \<Rightarrow> s)"

section \<open>The schedule store\<close>

text \<open>
  The table \<^verbatim>\<open>schedules\<close> of \<^verbatim>\<open>init_db\<close> (lines 45 to 59). A row has the columns of the
  \<^verbatim>\<open>CREATE TABLE\<close> statement; the column \<^verbatim>\<open>id\<close> is the field \<open>schedule_id\<close>, and the column
  \<^verbatim>\<open>notified\<close>, which only ever holds 0 (its default) or 1 (set by \<^verbatim>\<open>mark_notified\<close>), is a
  boolean. The rows are kept in insertion order. \<open>seq\<close> is the counter of
  \<^verbatim>\<open>AUTOINCREMENT\<close>: the largest id the table has handed out. The calls of \<^verbatim>\<open>sqlite3\<close> are
  modelled where they succeed: the source handles no storage error, and a \<^verbatim>\<open>when_ts\<close>
  outside the 64 bits of an SQLite integer, which the binding refuses, is outside the
  model.
\<close>

record schedule_row =
  schedule_id :: int
  user_id :: string
  title :: string
  "notes" :: string
  when_ts :: int
  notified :: bool

record store =
  rows :: "schedule_row list"
  seq :: int

definition init_db :: store where
  "init_db = \<lparr>rows = [], seq = 0\<rparr>"

text \<open>\<^verbatim>\<open>add_schedule\<close>, lines 61 to 69: the \<^verbatim>\<open>INSERT\<close>, returning \<^verbatim>\<open>cur.lastrowid\<close>.\<close>

definition add_schedule :: "store \<Rightarrow> string \<Rightarrow> string \<Rightarrow> string \<Rightarrow> int \<Rightarrow> int \<times> store" where
  "add_schedule s uid ttl nts ts =
     (let rowid = seq s + 1 in
      (rowid,
       \<lparr>rows = rows s @ [\<lparr>schedule_id = rowid, user_id = uid, title = ttl, notes = nts,
                           when_ts = ts, notified = False\<rparr>],
        seq = rowid\<rparr>))"

text \<open>\<^verbatim>\<open>mark_notified\<close>, lines 71 to 76: \<^verbatim>\<open>UPDATE schedules SET notified = 1 WHERE id = ?\<close>.\<close>

definition mark_notified :: "store \<Rightarrow> int \<Rightarrow> store" where
  "mark_notified s sid =
     s\<lparr>rows := map (\<lambda>r. if schedule_id r = sid then r\<lparr>notified := True\<rparr> else r) (rows s)\<rparr>"

text \<open>
  \<^verbatim>\<open>get_user_upcoming\<close>, lines 78 to 85:
  \<^verbatim>\<open>SELECT title, notes, when_ts FROM schedules WHERE user_id = ? ORDER BY when_ts LIMIT ?\<close>.
  A negative \<^verbatim>\<open>LIMIT\<close> is no limit in SQLite. The order among equal \<^verbatim>\<open>when_ts\<close> is taken
  as the insertion order.
\<close>

definition get_user_upcoming :: "store \<Rightarrow> string \<Rightarrow> int \<Rightarrow> (string \<times> string \<times> int) list" where
  "get_user_upcoming s uid limit =
     (let selected = filter (\<lambda>r. user_id r = uid) (rows s);
          ordered = sort_key when_ts selected;
          limited = (if limit < 0 then ordered else take (nat limit) ordered)
      in map (\<lambda>r. (title r, notes r, when_ts r)) limited)"

text \<open>
  The query of \<^verbatim>\<open>poll_pending_schedules\<close>, line 172:
  \<^verbatim>\<open>SELECT id FROM schedules WHERE when_ts <= ? AND notified = 0\<close>.
\<close>

definition list_due_undelivered :: "store \<Rightarrow> int \<Rightarrow> int list" where
  "list_due_undelivered s now_ts =
     map schedule_id (filter (\<lambda>r. when_ts r \<le> now_ts \<and> \<not> notified r) (rows s))"

text \<open>The query of \<^verbatim>\<open>trigger_notification\<close>, lines 150 and 151: the first row of that id.\<close>

definition fetch_schedule :: "store \<Rightarrow> int \<Rightarrow> schedule_row option" where
  "fetch_schedule s sid = find (\<lambda>r. schedule_id r = sid) (rows s)"

text \<open>
  Ids are handed out once: the ids of the table are distinct and none is above the
  counter. The empty table has this property and the two updates keep it (lemmas
  \<open>store_ok_init\<close>, \<open>store_ok_add_schedule\<close> and \<open>store_ok_mark_notified\<close> below).
\<close>

definition store_ok :: "store \<Rightarrow> bool" where
  "store_ok s =
     (distinct (map schedule_id (rows s)) \<and> list_all (\<lambda>r. schedule_id r \<le> seq s) (rows s))"

section \<open>Capabilities and the world\<close>

text \<open>
  The collaborators of the core are parameters of the model. \<open>'dt\<close> is the type of the
  \<^verbatim>\<open>datetime\<close> objects that \<^verbatim>\<open>dateparser.parse\<close> returns; such an object is always true in a
  condition. The wall clock moves while \<^verbatim>\<open>input()\<close> and the text-to-speech engine block, by
  the seconds the environment gives; every other statement takes no time. \<^verbatim>\<open>print\<close> is not
  recorded. The Telegram calls return (\<open>True\<close>) or raise an \<^verbatim>\<open>Exception\<close> (\<open>False\<close>).
  \<^verbatim>\<open>datetime.fromtimestamp\<close> raises on a timestamp outside the years it can represent
  (\<^verbatim>\<open>ValueError\<close>, \<^verbatim>\<open>OverflowError\<close> or \<^verbatim>\<open>OSError\<close>); the source catches none of them.
\<close>

datatype error = TelegramError | OSError | ValueError | OverflowError

record telegram =
  send_message :: "string \<Rightarrow> bool"
  send_photo :: "string \<Rightarrow> string \<Rightarrow> bool"

record 'dt env =
  typed_line :: "nat \<Rightarrow> string"
  listen_secs :: "nat \<Rightarrow> real"
  speak_secs :: "string \<Rightarrow> real"
  dateparser_parse :: "string \<Rightarrow> 'dt option"
  timestamp :: "'dt \<Rightarrow> int"
  strftime :: "'dt \<Rightarrow> string"
  fromtimestamp :: "int \<Rightarrow> error + string"
  isoformat_now :: "real \<Rightarrow> string"
  telegram_bot :: "telegram option"
  file_writable :: bool

text \<open>
  \<open>typed_line env n\<close> and \<open>listen_secs env n\<close> are the line typed at the \<open>n\<close>-th call of
  \<^verbatim>\<open>input()\<close> and the time that call blocks; \<open>timestamp env d\<close> is \<^verbatim>\<open>int(d.timestamp())\<close>,
  \<open>strftime env d\<close> is \<^verbatim>\<open>d.strftime('%Y-%m-%d %H:%M')\<close>, \<open>fromtimestamp env t\<close> is
  \<^verbatim>\<open>datetime.fromtimestamp(t).strftime("%Y-%m-%d %H:%M")\<close>, \<open>Inr\<close> the text or \<open>Inl\<close> the exception,
  and \<open>isoformat_now env t\<close> is \<^verbatim>\<open>datetime.now().isoformat()\<close> read at time \<open>t\<close>.
\<close>

datatype call_site = Turn_listen | Follow_up_listen

datatype 'dt job = Date_job 'dt int | Run_now_job int

datatype event =
    Speak string
  | Listen call_site real
  | Send_message string
  | Send_photo string string
  | Write_file int string

text \<open>
  The state the core acts on: the clock, the table, the jobs added to the scheduler
  (\<open>Date_job d sid\<close> is the job \<^verbatim>\<open>reminder-<sid>\<close> with \<^verbatim>\<open>run_date=d\<close>, \<open>Run_now_job sid\<close> a job
  added without a trigger), the number of lines read so far, and what the core did, oldest
  first. \<open>Listen site t\<close> records a call of the speech-to-text hook that started at
  time \<open>t\<close>; \<open>Write_file ts bytes\<close> the photo saved as \<^verbatim>\<open>captured/unknown_<ts>.jpg\<close>.
\<close>

record 'dt world =
  now :: real
  db :: store
  jobs :: "'dt job list"
  lines_read :: nat
  trace :: "event list"

definition py_int :: "real \<Rightarrow> int" where
  "py_int x = (if 0 \<le> x then \<lfloor>x\<rfloor> else \<lceil>x\<rceil>)"

definition em_dash :: string where
  "em_dash = [CHR 0xE2, CHR 0x80, CHR 0x94]"

definition AUTHORIZED_USERS :: "(string \<times> (string \<times> string) list) list" where
  "AUTHORIZED_USERS = [(''alice'', [(''display'', ''Alice'')]), (''bob'', [(''display'', ''Bob'')])]"

text \<open>\<^verbatim>\<open>AUTHORIZED_USERS.get(user_id, {}).get("display", user_id)\<close>, lines 157 and 184.\<close>

definition display_name :: "string \<Rightarrow> string" where
  "display_name uid =
     (case map_of (case map_of AUTHORIZED_USERS uid of None \<Rightarrow> [] | Some d \<Rightarrow> d) ''display'' of
        None \<Rightarrow> uid
      | Some v \<Rightarrow> v)"

text \<open>\<^verbatim>\<open>speak\<close>, lines 88 to 92, and \<^verbatim>\<open>transcribe_audio_from_mic_demo\<close>, lines 94 to 99.\<close>

definition speak :: "'dt env \<Rightarrow> string \<Rightarrow> 'dt world \<Rightarrow> 'dt world" where
  "speak env text w = w\<lparr>now := now w + speak_secs env text, trace := trace w @ [Speak text]\<rparr>"

definition transcribe_audio_from_mic_demo ::
    "'dt env \<Rightarrow> call_site \<Rightarrow> 'dt world \<Rightarrow> string \<times> 'dt world" where
  "transcribe_audio_from_mic_demo env site w =
     (strip (typed_line env (lines_read w)),
      w\<lparr>now := now w + listen_secs env (lines_read w),
        lines_read := Suc (lines_read w),
        trace := trace w @ [Listen site (now w)]\<rparr>)"

definition reply_with_llm_sim :: "string \<Rightarrow> string \<Rightarrow> string" where
  "reply_with_llm_sim user_text uid = ''I heard: '' @ user_text"

definition extract_datetime_from_text :: "'dt env \<Rightarrow> string \<Rightarrow> 'dt option" where
  "extract_datetime_from_text env text = dateparser_parse env text"

section \<open>Notifications and the unknown face\<close>

text \<open>
  \<^verbatim>\<open>send_photo_to_owner\<close>, lines 121 to 127: \<open>Inr\<close> the value returned, \<open>Inl\<close> the exception
  of the Telegram call.
\<close>

definition send_photo_to_owner ::
    "'dt env \<Rightarrow> string \<Rightarrow> string \<Rightarrow> 'dt world \<Rightarrow> (error + bool) \<times> 'dt world" where
  "send_photo_to_owner env photo caption w =
     (case telegram_bot env of
        None \<Rightarrow> (Inr False, w)
      | Some tbot \<Rightarrow>
          (let w1 = w\<lparr>trace := trace w @ [Send_photo photo caption]\<rparr> in
           if send_photo tbot photo caption then (Inr True, w1) else (Inl TelegramError, w1)))"

text \<open>
  \<^verbatim>\<open>on_unknown_face\<close>, lines 129 to 144. The file is written before the \<^verbatim>\<open>try\<close>, so its
  error leaves the function; \<open>Some e\<close> in the result is an exception that reaches the
  caller.
\<close>

definition on_unknown_face :: "'dt env \<Rightarrow> string \<Rightarrow> 'dt world \<Rightarrow> error option \<times> 'dt world" where
  "on_unknown_face env photo w =
     (let ts = py_int (now w) in
      if \<not> file_writable env then (Some OSError, w)
      else
        (let w1 = w\<lparr>trace := trace w @ [Write_file ts photo]\<rparr> in
         case send_photo_to_owner env photo
                (''Unknown person seen at '' @ isoformat_now env (now w1)) w1 of
           (Inr sent, w2) \<Rightarrow>
             (None,
              if sent
              then speak env (''I detected someone I don't recognize '' @ em_dash
                              @ '' the owner has been notified.'') w2
              else speak env ''I detected an unknown person but couldn't notify the owner.'' w2)
         | (Inl e, w2) \<Rightarrow>
             (None, speak env ''Failed to send the unknown-person photo due to an error.'' w2)))"

text \<open>
  \<^verbatim>\<open>trigger_notification\<close>, lines 147 to 165. \<open>Some e\<close> in the result is an exception that
  leaves the function: that of formatting \<^verbatim>\<open>when_ts\<close> at line 156, before anything is spoken
  or marked. The exception of \<^verbatim>\<open>send_message\<close> is caught and printed, so both results of
  that call continue the same way.
\<close>

definition reminder_msg :: "schedule_row \<Rightarrow> string \<Rightarrow> string" where
  "reminder_msg r when_str =
     ''Reminder for '' @ display_name (user_id r) @ '': '' @ title r @ '' at ''
       @ when_str @ ''. '' @ notes r"

definition trigger_notification :: "'dt env \<Rightarrow> int \<Rightarrow> 'dt world \<Rightarrow> error option \<times> 'dt world" where
  "trigger_notification env sid w =
     (case fetch_schedule (db w) sid of
        None \<Rightarrow> (None, w)
      | Some row \<Rightarrow>
          (case fromtimestamp env (when_ts row) of
             Inl e \<Rightarrow> (Some e, w)
           | Inr when_str \<Rightarrow>
               (let msg = reminder_msg row when_str;
                    w1 = speak env msg w;
                    w2 = (case telegram_bot env of
                            None \<Rightarrow> w1
                          | Some tbot \<Rightarrow>
                              w1\<lparr>trace := trace w1 @ [Send_message (''[Reminder] '' @ msg)]\<rparr>)
                in (None, w2\<lparr>db := mark_notified (db w2) sid\<rparr>))))"

text \<open>\<^verbatim>\<open>poll_pending_schedules\<close>, lines 168 to 176.\<close>

definition poll_pending_schedules :: "'dt env \<Rightarrow> 'dt world \<Rightarrow> 'dt world" where
  "poll_pending_schedules env w =
     (let now_ts = py_int (now w);
          due = list_due_undelivered (db w) now_ts
      in w\<lparr>jobs := jobs w @ map Run_now_job due\<rparr>)"

section \<open>The conversation session\<close>

text \<open>The branch of the intent \<^verbatim>\<open>add_schedule\<close>, lines 193 to 205.\<close>

definition handle_add_schedule :: "'dt env \<Rightarrow> string \<Rightarrow> string \<Rightarrow> 'dt world \<Rightarrow> 'dt world" where
  "handle_add_schedule env uid text w =
     (let (dt, w1) =
            (case extract_datetime_from_text env text of
               Some d \<Rightarrow> (Some d, w)
             | None \<Rightarrow>
                 (let w' = speak env ''When should I remind you? Please say a date and time.'' w;
                      (follow, w'') = transcribe_audio_from_mic_demo env Follow_up_listen w'
                  in (extract_datetime_from_text env follow, w'')))
      in case dt of
           Some d \<Rightarrow>
             (let ttl = text;
                  (sid, st) = add_schedule (db w1) uid ttl '''' (timestamp env d);
                  w2 = w1\<lparr>db := st, jobs := jobs w1 @ [Date_job d sid]\<rparr>
              in speak env (''Okay '' @ em_dash @ '' scheduled: '' @ ttl @ '' at '' @ strftime env d) w2)
         | None \<Rightarrow> speak env ''I couldn't understand the time.'' w1)"

text \<open>
  The branch of the intent \<^verbatim>\<open>show_schedule\<close>, lines 207 to 214. The loop over the rows
  stops at the first \<^verbatim>\<open>when_ts\<close> that cannot be formatted, with what was spoken before.
\<close>

fun speak_items ::
    "'dt env \<Rightarrow> (string \<times> string \<times> int) list \<Rightarrow> 'dt world \<Rightarrow> error option \<times> 'dt world" where
  "speak_items env [] w = (None, w)"
| "speak_items env ((ttl, nts, ts) # rest) w =
     (case fromtimestamp env ts of
        Inl e \<Rightarrow> (Some e, w)
      | Inr when_str \<Rightarrow> speak_items env rest (speak env (ttl @ '' at '' @ when_str) w))"

definition handle_show_schedule :: "'dt env \<Rightarrow> string \<Rightarrow> 'dt world \<Rightarrow> error option \<times> 'dt world" where
  "handle_show_schedule env uid w =
     (let upcoming = get_user_upcoming (db w) uid 10 in
      if upcoming = [] then (None, speak env ''You have no upcoming schedules.'' w)
      else speak_items env upcoming (speak env ''Here are your upcoming items:'' w))"

text \<open>The body of the loop once a text was heard, lines 191 to 218.\<close>

definition route_intent :: "'dt env \<Rightarrow> string \<Rightarrow> string \<Rightarrow> 'dt world \<Rightarrow> error option \<times> 'dt world" where
  "route_intent env uid text w =
     (let intent = parse_intent_simple (Some text) in
      if intent = ''add_schedule'' then (None, handle_add_schedule env uid text w)
      else if intent = ''show_schedule'' then handle_show_schedule env uid w
      else (None, speak env (reply_with_llm_sim text uid) w))"

text \<open>
  The loop of \<^verbatim>\<open>conversation_session\<close>, lines 187 to 218. A user who goes on talking while
  the clock stands still keeps the loop running, so the loop takes fuel, one unit for each
  test of its condition, and \<open>None\<close> is a run that has not ended within the fuel. A run
  that ends gives the exception that ended it, if any, and the last state.
\<close>

fun conversation_loop ::
    "nat \<Rightarrow> 'dt env \<Rightarrow> string \<Rightarrow> real \<Rightarrow> real \<Rightarrow> 'dt world \<Rightarrow> (error option \<times> 'dt world) option" where
  "conversation_loop 0 env uid start_time session_timeout w = None"
| "conversation_loop (Suc fuel) env uid start_time session_timeout w =
     (if now w - start_time < session_timeout then
        (let (text, w1) = transcribe_audio_from_mic_demo env Turn_listen w in
         if text = [] then Some (None, w1)
         else
           (case route_intent env uid text w1 of
              (Some e, w2) \<Rightarrow> Some (Some e, w2)
            | (None, w2) \<Rightarrow> conversation_loop fuel env uid start_time session_timeout w2))
      else Some (None, w))"

definition greeting :: "string \<Rightarrow> string" where
  "greeting uid = ''Hi '' @ display_name uid @ '', nice to see you. How can I help?''"

definition conversation_session ::
    "nat \<Rightarrow> 'dt env \<Rightarrow> string \<Rightarrow> real \<Rightarrow> 'dt world \<Rightarrow> (error option \<times> 'dt world) option" where
  "conversation_session fuel env uid session_timeout w =
     (let w1 = speak env (greeting uid) w;
          start_time = now w1
      in conversation_loop fuel env uid start_time session_timeout w1)"

section \<open>Reading the trace\<close>

text \<open>The texts spoken, in order.\<close>

fun spoken :: "event list \<Rightarrow> string list" where
  "spoken [] = []"
| "spoken (Speak m # evs) = m # spoken evs"
| "spoken (e # evs) = spoken evs"

text \<open>
  Every call of the speech-to-text hook in the trace started before \<open>session_timeout\<close>
  seconds had passed since \<open>start_time\<close>; and the same for the calls at the head of the
  loop only.
\<close>

definition listens_before_deadline :: "real \<Rightarrow> real \<Rightarrow> event list \<Rightarrow> bool" where
  "listens_before_deadline start_time session_timeout evs =
     list_all (\<lambda>e. case e of Listen site t \<Rightarrow> t - start_time < session_timeout | _ \<Rightarrow> True) evs"

definition turn_listens_before_deadline :: "real \<Rightarrow> real \<Rightarrow> event list \<Rightarrow> bool" where
  "turn_listens_before_deadline start_time session_timeout evs =
     list_all (\<lambda>e. case e of
                      Listen site t \<Rightarrow> site = Turn_listen \<longrightarrow> t - start_time < session_timeout
                    | _ \<Rightarrow> True) evs"

section \<open>Example environments\<close>

text \<open>
  A user types a reminder without a time, then the time; \<^verbatim>\<open>datetime\<close> objects are epoch
  seconds here, and no Telegram bot is configured.
\<close>

definition demo_env :: "int env" where
  "demo_env =
     \<lparr>typed_line = (\<lambda>n. if n = 0 then ''remind me to take pills''
                         else if n = 1 then ''9am tomorrow'' else []),
      listen_secs = (\<lambda>n. 5),
      speak_secs = (\<lambda>m. 2),
      dateparser_parse = (\<lambda>s. if s = ''9am tomorrow'' then Some 118800 else None),
      timestamp = (\<lambda>d. d),
      strftime = (\<lambda>d. ''1970-01-02 09:00''),
      fromtimestamp = (\<lambda>t. if 0 \<le> t \<and> t < 253402300800 then Inr ''1970-01-02 09:00''
                            else Inl ValueError),
      isoformat_now = (\<lambda>t. ''1970-01-01T00:00:00''),
      telegram_bot = None,
      file_writable = True\<rparr>"

definition working_bot :: telegram where
  "working_bot = \<lparr>send_message = (\<lambda>m. True), send_photo = (\<lambda>p c. True)\<rparr>"

definition failing_bot :: telegram where
  "failing_bot = \<lparr>send_message = (\<lambda>m. False), send_photo = (\<lambda>p c. False)\<rparr>"

definition fresh_world :: "int world" where
  "fresh_world = \<lparr>now = 0, db = init_db, jobs = [], lines_read = 0, trace = []\<rparr>"

text \<open>
  A table whose only reminder, due at second 118800, was notified, and the same table
  before the notification; the clock is at second 200000.
\<close>

definition delivered_row :: schedule_row where
  "delivered_row =
     \<lparr>schedule_id = 1, user_id = ''alice'', title = ''call mom'', notes = [],
      when_ts = 118800, notified = True\<rparr>"

definition delivered_world :: "int world" where
  "delivered_world =
     \<lparr>now = 200000, db = \<lparr>rows = [delivered_row], seq = 1\<rparr>, jobs = [], lines_read = 0,
      trace = []\<rparr>"

definition pending_world :: "int world" where
  "pending_world =
     \<lparr>now = 200000, db = \<lparr>rows = [delivered_row\<lparr>notified := False\<rparr>], seq = 1\<rparr>, jobs = [],
      lines_read = 0, trace = []\<rparr>"

text \<open>
  A pending reminder whose \<^verbatim>\<open>when_ts\<close> was stored in milliseconds, in a year that
  \<^verbatim>\<open>datetime.fromtimestamp\<close> refuses.
\<close>

definition unformattable_world :: "int world" where
  "unformattable_world =
     \<lparr>now = 200000,
      db = \<lparr>rows = [delivered_row\<lparr>when_ts := 1793782800000, notified := False\<rparr>], seq = 1\<rparr>,
      jobs = [], lines_read = 0, trace = []\<rparr>"

text \<open>Every call of \<^verbatim>\<open>input()\<close> blocks for 100 seconds.\<close>

definition slow_env :: "int env" where
  "slow_env = demo_env\<lparr>listen_secs := (\<lambda>n. 100)\<rparr>"

text \<open>The user gives no time when asked for one, then goes on talking.\<close>

definition silent_follow_up_env :: "int env" where
  "silent_follow_up_env =
     demo_env\<lparr>typed_line := (\<lambda>n. if n = 0 then ''remind me to take pills''
                                 else if n = 2 then ''how are you'' else [])\<rparr>"

section \<open>Lemmas on strings and the store\<close>

lemma lower_char_idem: "lower_char (lower_char c) = lower_char c"
  by (simp add: lower_char_def Let_def)

lemma lower_idem: "lower (lower s) = lower s"
  by (simp add: lower_def lower_char_idem)

lemma startswith_prefix: "startswith t k = prefix k t"
  by (induction t k rule: startswith.induct) auto

lemma contains_sublist: "contains t k = sublist k t"
  by (induction t) (auto simp: startswith_prefix sublist_Cons_right)

lemma contains_trans: "contains t k \<Longrightarrow> contains k j \<Longrightarrow> contains t j"
  unfolding contains_sublist by (rule sublist_order.order.trans)

text \<open>Each keyword of the second rule contains a keyword of the first.\<close>

lemma show_keywords_contain_schedule:
  assumes "contains t ''show schedule'' \<or> contains t ''what's my schedule''
             \<or> contains t ''my schedule''"
  shows "contains t ''schedule''"
proof -
  have a: "contains ''show schedule'' ''schedule''" by simp
  have b: "contains ''what's my schedule'' ''schedule''" by simp
  have c: "contains ''my schedule'' ''schedule''" by simp
  show ?thesis using assms a b c contains_trans by blast
qed

text \<open>So the classifier never answers \<open>show_schedule\<close>, whatever the text.\<close>

lemma parse_intent_never_show: "parse_intent_simple text \<noteq> ''show_schedule''"
proof -
  define t where "t = lower (case text of None \<Rightarrow> [] | Some s \<Rightarrow> s)"
  have eq: "parse_intent_simple text =
     (if contains t ''remind me'' \<or> contains t ''schedule'' \<or> contains t ''add''
        then ''add_schedule''
      else if contains t ''show schedule'' \<or> contains t ''what's my schedule''
              \<or> contains t ''my schedule''
        then ''show_schedule''
      else ''chat'')"
    unfolding parse_intent_simple_def t_def Let_def ..
  show ?thesis
  proof (cases "contains t ''schedule''")
    case True
    then show ?thesis unfolding eq by simp
  next
    case False
    with show_keywords_contain_schedule [of t]
    have "\<not> (contains t ''show schedule'' \<or> contains t ''what's my schedule''
              \<or> contains t ''my schedule'')"
      by blast
    then show ?thesis unfolding eq by simp
  qed
qed

lemma mark_notified_twice: "mark_notified (mark_notified s sid) sid = mark_notified s sid"
  by (simp add: mark_notified_def comp_def)

lemma mark_notified_funpow:
  "0 < n \<Longrightarrow> ((\<lambda>x. mark_notified x sid) ^^ n) s = mark_notified s sid"
proof (induction n)
  case 0
  then show ?case by simp
next
  case (Suc n)
  show ?case
  proof (cases n)
    case 0
    then show ?thesis by simp
  next
    case (Suc m)
    with Suc.IH have "((\<lambda>x. mark_notified x sid) ^^ n) s = mark_notified s sid" by simp
    then show ?thesis by (simp add: mark_notified_twice)
  qed
qed

lemma marked_rows_notified:
  assumes "r \<in> set (rows (mark_notified s sid))" and "schedule_id r = sid"
  shows "notified r"
proof -
  from assms(1) obtain r0 where r0: "r0 \<in> set (rows s)"
      and r: "r = (if schedule_id r0 = sid then r0\<lparr>notified := True\<rparr> else r0)"
    unfolding mark_notified_def by auto
  show ?thesis
  proof (cases "schedule_id r0 = sid")
    case True
    with r show ?thesis by simp
  next
    case False
    with r assms(2) show ?thesis by simp
  qed
qed

lemma not_due_after_mark: "sid \<notin> set (list_due_undelivered (mark_notified s sid) t)"
proof
  assume "sid \<in> set (list_due_undelivered (mark_notified s sid) t)"
  then obtain r where "r \<in> set (rows (mark_notified s sid))" "schedule_id r = sid" "\<not> notified r"
    unfolding list_due_undelivered_def by auto
  then show False using marked_rows_notified by blast
qed

lemma due_after_add:
  "add_schedule s uid ttl nts ts = (sid, s') \<Longrightarrow>
     list_due_undelivered s' t = list_due_undelivered s t @ (if ts \<le> t then [sid] else [])"
  by (auto simp add: add_schedule_def list_due_undelivered_def Let_def)

lemma due_as_comprehension:
  "map schedule_id (filter P rs) = [schedule_id r. r \<leftarrow> rs, P r]"
  by (induction rs) simp_all

lemma store_ok_init: "store_ok init_db"
  by (simp add: store_ok_def init_db_def)

lemma store_ok_add_schedule:
  assumes "store_ok s"
  shows "store_ok (snd (add_schedule s uid ttl nts ts))"
proof -
  from assms have d: "distinct (map schedule_id (rows s))"
    and b: "list_all (\<lambda>r. schedule_id r \<le> seq s) (rows s)"
    by (simp_all add: store_ok_def)
  from b have fresh: "seq s + 1 \<notin> schedule_id ` set (rows s)"
    by (auto simp add: list_all_iff)
  from b have b': "list_all (\<lambda>r. schedule_id r \<le> seq s + 1) (rows s)"
    by (auto simp add: list_all_iff)
  show ?thesis
    using d fresh b' by (simp add: store_ok_def add_schedule_def Let_def)
qed

lemma store_ok_ids:
  "store_ok s =
     (distinct (map schedule_id (rows s)) \<and> list_all (\<lambda>i. i \<le> seq s) (map schedule_id (rows s)))"
  by (simp add: store_ok_def list.pred_map comp_def)

lemma store_ok_mark_notified:
  assumes "store_ok s"
  shows "store_ok (mark_notified s sid)"
proof -
  have ids: "map schedule_id (rows (mark_notified s sid)) = map schedule_id (rows s)"
    by (simp add: mark_notified_def comp_def if_distrib [of schedule_id] cong: if_cong)
  have sq: "seq (mark_notified s sid) = seq s"
    by (simp add: mark_notified_def)
  show ?thesis
    using assms unfolding store_ok_ids ids sq .
qed

lemma poll_queues_due:
  "jobs (poll_pending_schedules env w) =
     jobs w @ map Run_now_job (list_due_undelivered (db w) (py_int (now w)))"
  by (simp add: poll_pending_schedules_def Let_def)

lemma spoken_append: "spoken (xs @ ys) = spoken xs @ spoken ys"
  by (induction xs rule: spoken.induct) simp_all

lemma trace_speak: "trace (speak env m w) = trace w @ [Speak m]"
  by (simp add: speak_def)

lemma of_char_lower_char:
  "(of_char (lower_char c) :: nat) = (if is_capital c then of_char c + 32 else of_char c)"
  by (simp add: lower_char_def is_capital_def Let_def)

lemma of_char_eq_nat: "c = d \<longleftrightarrow> (of_char c :: nat) = of_char d"
  by simp

lemma lower_char_eq_iff: "lower_char c = lower_char d \<longleftrightarrow> same_ignoring_case c d"
proof -
  have "lower_char c = lower_char d \<longleftrightarrow> (of_char (lower_char c) :: nat) = of_char (lower_char d)"
    by simp
  also have "\<dots> \<longleftrightarrow> same_ignoring_case c d"
    unfolding of_char_lower_char same_ignoring_case_def of_char_eq_nat [of c d] is_capital_def
    by auto
  finally show ?thesis .
qed

lemma startswith_lower:
  "lower k = k \<Longrightarrow> startswith (lower t) k = startswith_ignoring_case t k"
proof (induction t k rule: startswith_ignoring_case.induct)
  case (1 t)
  show ?case by simp
next
  case (2 k ks)
  show ?case by (simp add: lower_def)
next
  case (3 c t k ks)
  from "3.prems" have k: "lower_char k = k" and ks: "lower ks = ks"
    by (simp_all add: lower_def)
  have "lower_char c = k \<longleftrightarrow> same_ignoring_case c k"
    using lower_char_eq_iff [of c k] k by simp
  moreover have "startswith (lower t) ks = startswith_ignoring_case t ks"
    using ks by (rule "3.IH")
  moreover have "lower (c # t) = lower_char c # lower t"
    by (simp add: lower_def)
  ultimately show ?case by simp
qed

lemma contains_lower:
  assumes "lower k = k"
  shows "contains (lower t) k = contains_ignoring_case t k"
proof (induction t)
  case Nil
  show ?case by (simp add: lower_def)
next
  case (Cons c t)
  have "startswith (lower (c # t)) k = startswith_ignoring_case (c # t) k"
    using assms by (rule startswith_lower)
  moreover have "lower (c # t) = lower_char c # lower t"
    by (simp add: lower_def)
  ultimately show ?case using Cons.IH by simp
qed

lemma keywords_lower:
  "lower ''remind me'' = ''remind me''" "lower ''schedule'' = ''schedule''"
  "lower ''add'' = ''add''" "lower ''show schedule'' = ''show schedule''"
  "lower ''what's my schedule'' = ''what's my schedule''"
  "lower ''my schedule'' = ''my schedule''"
  by (simp_all add: lower_def lower_char_def)

lemma lower_same:
  "list_all2 same_ignoring_case s s' \<Longrightarrow> lower s = lower s'"
  unfolding lower_def by (induction rule: list_all2_induct) (simp_all add: lower_char_eq_iff)

text \<open>\<open>strip\<close> on texts with whitespace at the ends, inside, and of several bytes.\<close>

lemma strip_examples:
  "strip ''  how are you '' = ''how are you''"
  "strip [CHR 0x09, CHR 0xC2, CHR 0xA0, CHR ''h'', CHR ''i'', CHR 0xE3, CHR 0x80, CHR 0x80, CHR 0x0A]
     = ''hi''"
  "strip '' '' = []"
  "strip [] = []"
  by (simp_all add: strip_def lstrip_def rstrip_def whitespace_def)

section \<open>Intent classification: C2, C3, C10\<close>

text \<open>
  C2. The classifier is claimed to map "remind me to call mom tomorrow 5pm" to
  \<open>add_schedule\<close>, "what's my schedule" to \<open>show_schedule\<close> and "how are you" to \<open>chat\<close>.
  The first and the third hold. The second text contains "schedule", a keyword of the rule
  tested first, so the code answers \<open>add_schedule\<close> for it.
\<close>

theorem parse_intent_simple_examples:
  "parse_intent_simple (Some ''remind me to call mom tomorrow 5pm'') = ''add_schedule''
   \<and> parse_intent_simple (Some ''what's my schedule'') = ''add_schedule''
   \<and> parse_intent_simple (Some ''how are you'') = ''chat''"
  by (simp add: parse_intent_simple_def lower_def lower_char_def char_of_eq_iff)

text \<open>
  C3. For every text the classification is the first match of the ordered rule table, the
  keywords being looked for as substrings with the case of the letters ignored:
  \<open>add_schedule\<close> if the text contains "remind me", "schedule" or "add"; else
  \<open>show_schedule\<close> if it contains "show schedule", "what's my schedule" or "my schedule";
  else \<open>chat\<close>. Two texts that differ only in the case of their letters get the same
  intent.
\<close>

theorem parse_intent_simple_first_match:
  "parse_intent_simple text = classify_spec text
   \<and> (list_all2 same_ignoring_case s s'
        \<longrightarrow> parse_intent_simple (Some s) = parse_intent_simple (Some s'))"
proof -
  have a: "parse_intent_simple text = classify_spec text"
    by (simp add: parse_intent_simple_def classify_spec_def intent_rules_def Let_def
          contains_lower keywords_lower)
  have b: "list_all2 same_ignoring_case s s'
        \<longrightarrow> parse_intent_simple (Some s) = parse_intent_simple (Some s')"
    using lower_same [of s s'] by (simp add: parse_intent_simple_def)
  from a b show ?thesis by blast
qed

theorem parse_intent_simple_first_match_witness:
  "list_all2 same_ignoring_case ''Please ADD milk'' ''please add MILK''
   \<and> parse_intent_simple (Some ''Please ADD milk'') = ''add_schedule''
   \<and> parse_intent_simple (Some ''please add MILK'') = ''add_schedule''
   \<and> classify_spec (Some ''Please ADD milk'') = ''add_schedule''
   \<and> parse_intent_simple (Some ''REMIND ME to call mom'') = ''add_schedule''
   \<and> classify_spec (Some ''How Are You'') = ''chat''"
proof -
  have s: "list_all2 same_ignoring_case ''Please ADD milk'' ''please add MILK''"
    by (simp add: same_ignoring_case_def is_capital_def)
  have e: "parse_intent_simple (Some ''Please ADD milk'') = ''add_schedule''"
    by (simp add: parse_intent_simple_def lower_def lower_char_def char_of_eq_iff)
  have r: "parse_intent_simple (Some ''REMIND ME to call mom'') = ''add_schedule''"
    by (simp add: parse_intent_simple_def lower_def lower_char_def char_of_eq_iff)
  have h: "parse_intent_simple (Some ''How Are You'') = ''chat''"
    by (simp add: parse_intent_simple_def lower_def lower_char_def char_of_eq_iff)
  note t1 = parse_intent_simple_first_match [of "Some ''Please ADD milk''" "''Please ADD milk''" "''please add MILK''"]
  note t2 = parse_intent_simple_first_match [of "Some ''How Are You''" "[]" "[]"]
  from t1 s have b: "parse_intent_simple (Some ''Please ADD milk'') = parse_intent_simple (Some ''please add MILK'')"
    by blast
  from t1 have c: "parse_intent_simple (Some ''Please ADD milk'') = classify_spec (Some ''Please ADD milk'')"
    by blast
  from t2 have d: "parse_intent_simple (Some ''How Are You'') = classify_spec (Some ''How Are You'')"
    by blast
  from s e r h b c d show ?thesis by metis
qed

text \<open>
  C10. The classifier is total on \<^verbatim>\<open>None\<close> and on the empty string: both are classified
  as \<open>chat\<close>, \<^verbatim>\<open>None\<close> being replaced by the empty string first.
\<close>

theorem parse_intent_simple_none_empty:
  "parse_intent_simple None = ''chat'' \<and> parse_intent_simple (Some []) = ''chat''"
  by (simp add: parse_intent_simple_def lower_def)

section \<open>The store: C5, C8\<close>

text \<open>
  C5. After \<open>add_schedule\<close> with a time \<open>ts\<close> not after \<open>now_ts\<close>, the new id is among the
  due and undelivered ids at \<open>ts\<close> and at \<open>now_ts\<close>; after any positive number of calls of
  \<open>mark_notified\<close> on it, it is among them at no time; and the query returns exactly the ids
  of the rows with \<open>when_ts \<le> now_ts\<close> that are not notified.
\<close>

theorem create_due_until_delivered:
  "add_schedule s uid ttl nts ts = (sid, s') \<Longrightarrow> ts \<le> now_ts \<Longrightarrow>
     sid \<in> set (list_due_undelivered s' ts) \<and>
     sid \<in> set (list_due_undelivered s' now_ts) \<and>
     (0 < n \<longrightarrow> sid \<notin> set (list_due_undelivered (((\<lambda>x. mark_notified x sid) ^^ n) s') t)) \<and>
     list_due_undelivered s0 t = [schedule_id r. r \<leftarrow> rows s0, when_ts r \<le> t \<and> \<not> notified r]"
proof -
  assume add: "add_schedule s uid ttl nts ts = (sid, s')" and le: "ts \<le> now_ts"
  have a: "sid \<in> set (list_due_undelivered s' ts)"
    using due_after_add [OF add, of ts] by simp
  have b: "sid \<in> set (list_due_undelivered s' now_ts)"
    using due_after_add [OF add, of now_ts] le by simp
  have c: "0 < n \<longrightarrow> sid \<notin> set (list_due_undelivered (((\<lambda>x. mark_notified x sid) ^^ n) s') t)"
    using not_due_after_mark [of sid s' t] by (simp add: mark_notified_funpow)
  have d: "list_due_undelivered s0 t = [schedule_id r. r \<leftarrow> rows s0, when_ts r \<le> t \<and> \<not> notified r]"
    unfolding list_due_undelivered_def by (rule due_as_comprehension)
  from a b c d show ?thesis by blast
qed

theorem create_due_until_delivered_witness:
  "add_schedule init_db ''alice'' ''take pills'' [] 100
     = (1, \<lparr>rows = [\<lparr>schedule_id = 1, user_id = ''alice'', title = ''take pills'', notes = [],
                      when_ts = 100, notified = False\<rparr>], seq = 1\<rparr>)
   \<and> (100::int) \<le> 200
   \<and> 1 \<in> set (list_due_undelivered (snd (add_schedule init_db ''alice'' ''take pills'' [] 100)) 100)
   \<and> 1 \<in> set (list_due_undelivered (snd (add_schedule init_db ''alice'' ''take pills'' [] 100)) 200)
   \<and> 1 \<notin> set (list_due_undelivered
                 (((\<lambda>x. mark_notified x 1) ^^ Suc (Suc 0))
                    (snd (add_schedule init_db ''alice'' ''take pills'' [] 100))) 200)
   \<and> list_due_undelivered (db delivered_world) 200 = []"
  using create_due_until_delivered
          [of init_db "''alice''" "''take pills''" "[]" 100 1
              "snd (add_schedule init_db ''alice'' ''take pills'' [] 100)" 200 "Suc (Suc 0)" 200
              "db delivered_world"]
  by (simp add: add_schedule_def init_db_def list_due_undelivered_def mark_notified_def
        delivered_world_def delivered_row_def)

text \<open>
  C8. \<open>mark_notified\<close> is idempotent: for every id and every table, the second call leaves
  the table as the first call left it, and it is not an error.
\<close>

theorem mark_notified_idempotent:
  "mark_notified (mark_notified s sid) sid = mark_notified s sid"
  by (simp add: mark_notified_def comp_def)

section \<open>The unknown face: C9\<close>

text \<open>
  C9, as the code has it. Once the photo is saved, \<open>on_unknown_face\<close> returns without an
  exception whatever the alert does, and speaks exactly one of three fixed texts: one when
  no bot is configured, one when the photo was sent, and one when the alert raised. When
  the photo cannot be saved, which comes before the alert, the error of the file reaches
  the caller and nothing is spoken.
\<close>

theorem on_unknown_face_outcomes:
  "(file_writable env \<longrightarrow>
      fst (on_unknown_face env photo w) = None \<and>
      spoken (trace (snd (on_unknown_face env photo w))) =
        spoken (trace w) @
        [case telegram_bot env of
           None \<Rightarrow> ''I detected an unknown person but couldn't notify the owner.''
         | Some tbot \<Rightarrow>
             if send_photo tbot photo (''Unknown person seen at '' @ isoformat_now env (now w))
             then ''I detected someone I don't recognize '' @ em_dash
                    @ '' the owner has been notified.''
             else ''Failed to send the unknown-person photo due to an error.''])
   \<and> (\<not> file_writable env \<longrightarrow> on_unknown_face env photo w = (Some OSError, w))"
  by (simp add: on_unknown_face_def send_photo_to_owner_def Let_def spoken_append trace_speak
           split: option.split)

theorem on_unknown_face_outcomes_witness:
  "file_writable (demo_env\<lparr>telegram_bot := Some failing_bot\<rparr>) \<and>
   fst (on_unknown_face (demo_env\<lparr>telegram_bot := Some failing_bot\<rparr>) ''jpg'' fresh_world) = None \<and>
   spoken (trace (snd (on_unknown_face (demo_env\<lparr>telegram_bot := Some failing_bot\<rparr>)
                         ''jpg'' fresh_world)))
     = [''Failed to send the unknown-person photo due to an error.''] \<and>
   \<not> file_writable (demo_env\<lparr>file_writable := False\<rparr>) \<and>
   on_unknown_face (demo_env\<lparr>file_writable := False\<rparr>) ''jpg'' fresh_world
     = (Some OSError, fresh_world)"
  using on_unknown_face_outcomes [of "demo_env\<lparr>telegram_bot := Some failing_bot\<rparr>" "''jpg''" fresh_world]
        on_unknown_face_outcomes [of "demo_env\<lparr>file_writable := False\<rparr>" "''jpg''" fresh_world]
  by (simp add: demo_env_def fresh_world_def failing_bot_def)

text \<open>
  C9 as stated has two spoken outcomes, the failure one also for an exception, and one of
  them in every call. The code speaks one text when the alert is not sent and another
  when the alert raises; and it speaks nothing, and lets the error through, when the
  photo cannot be saved.
\<close>

theorem on_unknown_face_two_outcomes_counterexample:
  "spoken (trace (snd (on_unknown_face demo_env ''jpg'' fresh_world)))
     = [''I detected an unknown person but couldn't notify the owner.'']
   \<and> spoken (trace (snd (on_unknown_face (demo_env\<lparr>telegram_bot := Some failing_bot\<rparr>)
                           ''jpg'' fresh_world)))
     = [''Failed to send the unknown-person photo due to an error.'']
   \<and> spoken (trace (snd (on_unknown_face (demo_env\<lparr>telegram_bot := Some working_bot\<rparr>)
                           ''jpg'' fresh_world)))
     = [''I detected someone I don't recognize '' @ em_dash @ '' the owner has been notified.'']
   \<and> on_unknown_face (demo_env\<lparr>file_writable := False\<rparr>) ''jpg'' fresh_world
     = (Some OSError, fresh_world)
   \<and> spoken (trace (snd (on_unknown_face (demo_env\<lparr>file_writable := False\<rparr>) ''jpg'' fresh_world)))
     = []"
  by (simp add: on_unknown_face_def send_photo_to_owner_def Let_def spoken_append trace_speak
        demo_env_def fresh_world_def failing_bot_def working_bot_def)

section \<open>The notification dispatcher: C1\<close>

lemma mark_notified_delivered_unchanged:
  assumes ok: "store_ok s" and f: "fetch_schedule s sid = Some row" and n: "notified row"
  shows "mark_notified s sid = s"
proof -
  from f have mem: "row \<in> set (rows s)" and rid: "schedule_id row = sid"
    unfolding fetch_schedule_def by (auto simp add: find_Some_iff)
  from ok have inj: "inj_on schedule_id (set (rows s))"
    unfolding store_ok_def by (simp add: distinct_map)
  have "(if schedule_id r = sid then r\<lparr>notified := True\<rparr> else r) = r" if "r \<in> set (rows s)" for r
  proof (cases "schedule_id r = sid")
    case True
    with rid mem that inj have "r = row" by (auto dest: inj_onD)
    with n show ?thesis by simp
  next
    case False
    then show ?thesis by simp
  qed
  then have "map (\<lambda>r. if schedule_id r = sid then r\<lparr>notified := True\<rparr> else r) (rows s) = rows s"
    by (simp add: map_idI)
  then show ?thesis unfolding mark_notified_def by simp
qed

text \<open>
  C1, as the code has it. \<open>trigger_notification\<close> does nothing only for an id without a
  row. For an id with a row whose \<^verbatim>\<open>when_ts\<close> cannot be formatted, the exception leaves the
  function before anything is spoken or marked. For an id with any other row, notified or
  not, it speaks the reminder, attempts the external alert when a bot is configured, and
  marks the row; on a row that is already notified (ids being distinct) the table stays as
  it was.
\<close>

theorem trigger_notification_effects:
  "(fetch_schedule (db w) sid = None \<longrightarrow> trigger_notification env sid w = (None, w))
   \<and> (fetch_schedule (db w) sid = Some row \<and> fromtimestamp env (when_ts row) = Inl e \<longrightarrow>
        trigger_notification env sid w = (Some e, w))
   \<and> (fetch_schedule (db w) sid = Some row \<and> fromtimestamp env (when_ts row) = Inr when_str \<longrightarrow>
        fst (trigger_notification env sid w) = None
        \<and> trace (snd (trigger_notification env sid w)) =
            trace w @ Speak (reminder_msg row when_str)
                      # (case telegram_bot env of
                           None \<Rightarrow> []
                         | Some tbot \<Rightarrow> [Send_message (''[Reminder] '' @ reminder_msg row when_str)])
        \<and> db (snd (trigger_notification env sid w)) = mark_notified (db w) sid
        \<and> (store_ok (db w) \<and> notified row \<longrightarrow> db (snd (trigger_notification env sid w)) = db w))"
proof -
  have a: "fetch_schedule (db w) sid = None \<longrightarrow> trigger_notification env sid w = (None, w)"
    by (simp add: trigger_notification_def)
  have r: "fetch_schedule (db w) sid = Some row \<and> fromtimestamp env (when_ts row) = Inl e \<longrightarrow>
        trigger_notification env sid w = (Some e, w)"
    by (simp add: trigger_notification_def)
  have n: "fetch_schedule (db w) sid = Some row \<and> fromtimestamp env (when_ts row) = Inr when_str \<longrightarrow>
        fst (trigger_notification env sid w) = None"
    by (simp add: trigger_notification_def Let_def)
  have b: "fetch_schedule (db w) sid = Some row \<and> fromtimestamp env (when_ts row) = Inr when_str \<longrightarrow>
        trace (snd (trigger_notification env sid w)) =
            trace w @ Speak (reminder_msg row when_str)
                      # (case telegram_bot env of
                           None \<Rightarrow> []
                         | Some tbot \<Rightarrow> [Send_message (''[Reminder] '' @ reminder_msg row when_str)])"
    by (simp add: trigger_notification_def Let_def speak_def split: option.split)
  have c: "fetch_schedule (db w) sid = Some row \<and> fromtimestamp env (when_ts row) = Inr when_str \<longrightarrow>
        db (snd (trigger_notification env sid w)) = mark_notified (db w) sid"
    by (simp add: trigger_notification_def Let_def speak_def split: option.split)
  have d: "fetch_schedule (db w) sid = Some row \<and> fromtimestamp env (when_ts row) = Inr when_str \<longrightarrow>
        store_ok (db w) \<and> notified row \<longrightarrow> db (snd (trigger_notification env sid w)) = db w"
    using c mark_notified_delivered_unchanged [of "db w" sid row] by simp
  from a r n b c d show ?thesis by blast
qed

theorem trigger_notification_effects_witness:
  "fetch_schedule (db delivered_world) 2 = None
   \<and> trigger_notification demo_env 2 delivered_world = (None, delivered_world)
   \<and> fetch_schedule (db delivered_world) 1 = Some delivered_row
   \<and> fromtimestamp demo_env (when_ts delivered_row) = Inr ''1970-01-02 09:00''
   \<and> store_ok (db delivered_world) \<and> notified delivered_row
   \<and> fst (trigger_notification demo_env 1 delivered_world) = None
   \<and> trace (snd (trigger_notification demo_env 1 delivered_world))
       = [Speak ''Reminder for Alice: call mom at 1970-01-02 09:00. '']
   \<and> db (snd (trigger_notification demo_env 1 delivered_world)) = db delivered_world
   \<and> fetch_schedule (db unformattable_world) 1
       = Some (delivered_row\<lparr>when_ts := 1793782800000, notified := False\<rparr>)
   \<and> fromtimestamp demo_env (when_ts (delivered_row\<lparr>when_ts := 1793782800000, notified := False\<rparr>))
       = Inl ValueError
   \<and> trigger_notification demo_env 1 unformattable_world = (Some ValueError, unformattable_world)"
  using trigger_notification_effects
          [of delivered_world 2 demo_env delivered_row ValueError "''1970-01-02 09:00''"]
        trigger_notification_effects
          [of delivered_world 1 demo_env delivered_row ValueError "''1970-01-02 09:00''"]
        trigger_notification_effects
          [of unformattable_world 1 demo_env
              "delivered_row\<lparr>when_ts := 1793782800000, notified := False\<rparr>" ValueError "[]"]
  by (simp add: fetch_schedule_def delivered_world_def unformattable_world_def delivered_row_def
        store_ok_def demo_env_def reminder_msg_def display_name_def AUTHORIZED_USERS_def
        mark_notified_def)

text \<open>
  C1 as stated makes the call a no-op on a notified row. The code reads no \<^verbatim>\<open>notified\<close>
  column before it speaks: on the notified row it speaks and alerts again, and two calls
  on one pending id speak twice.
\<close>

theorem trigger_notification_delivered_counterexample:
  "fetch_schedule (db delivered_world) 1 = Some delivered_row
   \<and> notified delivered_row
   \<and> trace (snd (trigger_notification (demo_env\<lparr>telegram_bot := Some working_bot\<rparr>) 1
                    delivered_world))
       = [Speak ''Reminder for Alice: call mom at 1970-01-02 09:00. '',
          Send_message ''[Reminder] Reminder for Alice: call mom at 1970-01-02 09:00. '']
   \<and> spoken (trace (snd (trigger_notification demo_env 1
                            (snd (trigger_notification demo_env 1 pending_world)))))
       = [''Reminder for Alice: call mom at 1970-01-02 09:00. '',
          ''Reminder for Alice: call mom at 1970-01-02 09:00. '']"
  by (simp add: trigger_notification_def fetch_schedule_def delivered_world_def pending_world_def
        delivered_row_def demo_env_def working_bot_def reminder_msg_def display_name_def
        AUTHORIZED_USERS_def speak_def mark_notified_def Let_def)

section \<open>Slot filling for a reminder: C4\<close>

lemma handle_add_first_parse:
  assumes "dateparser_parse env text = Some d"
  shows "handle_add_schedule env uid text w =
           speak env (''Okay '' @ em_dash @ '' scheduled: '' @ text @ '' at '' @ strftime env d)
             (w\<lparr>db := snd (add_schedule (db w) uid text [] (timestamp env d)),
                jobs := jobs w @ [Date_job d (seq (db w) + 1)]\<rparr>)"
  using assms
  by (simp add: handle_add_schedule_def extract_datetime_from_text_def add_schedule_def Let_def)

lemma handle_add_retry:
  assumes "dateparser_parse env text = None"
  shows "handle_add_schedule env uid text w =
     (let w1 = snd (transcribe_audio_from_mic_demo env Follow_up_listen
                 (speak env ''When should I remind you? Please say a date and time.'' w))
      in case dateparser_parse env (strip (typed_line env (lines_read w))) of
           Some d \<Rightarrow>
             speak env (''Okay '' @ em_dash @ '' scheduled: '' @ text @ '' at '' @ strftime env d)
               (w1\<lparr>db := snd (add_schedule (db w) uid text [] (timestamp env d)),
                   jobs := jobs w @ [Date_job d (seq (db w) + 1)]\<rparr>)
         | None \<Rightarrow> speak env ''I couldn't understand the time.'' w1)"
  using assms
  by (simp add: handle_add_schedule_def extract_datetime_from_text_def add_schedule_def Let_def
        transcribe_audio_from_mic_demo_def speak_def split: option.split)



section \<open>Deadline and silence in the session: C6\<close>

lemma turn_listens_append:
  "turn_listens_before_deadline T tmo (xs @ ys) =
     (turn_listens_before_deadline T tmo xs \<and> turn_listens_before_deadline T tmo ys)"
  by (simp add: turn_listens_before_deadline_def)

lemma turn_listens_speak:
  "turn_listens_before_deadline T tmo (trace (speak env m w)) =
     turn_listens_before_deadline T tmo (trace w)"
  by (simp add: trace_speak turn_listens_append) (simp add: turn_listens_before_deadline_def)

lemma turn_listens_add:
  "turn_listens_before_deadline T tmo (trace (handle_add_schedule env uid text w)) =
     turn_listens_before_deadline T tmo (trace w)"
proof (cases "dateparser_parse env text")
  case (Some d)
  show ?thesis
    by (simp add: handle_add_first_parse [OF Some] turn_listens_speak)
next
  case None
  have f: "trace (snd (transcribe_audio_from_mic_demo env Follow_up_listen w')) =
             trace w' @ [Listen Follow_up_listen (now w')]" for w' :: "'a world"
    by (simp add: transcribe_audio_from_mic_demo_def)
  have g: "turn_listens_before_deadline T tmo [Listen Follow_up_listen t]" for t
    by (simp add: turn_listens_before_deadline_def)
  show ?thesis
    by (simp add: handle_add_retry [OF None] Let_def turn_listens_speak f g turn_listens_append
          split: option.split)
qed

lemma turn_listens_speak_items:
  "turn_listens_before_deadline T tmo (trace (snd (speak_items env xs w))) =
     turn_listens_before_deadline T tmo (trace w)"
proof (induction xs arbitrary: w)
  case Nil
  show ?case by simp
next
  case (Cons x xs)
  obtain ttl nts ts where x: "x = (ttl, nts, ts)" by (cases x) auto
  show ?case
  proof (cases "fromtimestamp env ts")
    case (Inl e)
    then show ?thesis by (simp add: x)
  next
    case (Inr when_str)
    then show ?thesis by (simp add: x Cons.IH turn_listens_speak)
  qed
qed

lemma turn_listens_show:
  "turn_listens_before_deadline T tmo (trace (snd (handle_show_schedule env uid w))) =
     turn_listens_before_deadline T tmo (trace w)"
  by (simp add: handle_show_schedule_def Let_def turn_listens_speak turn_listens_speak_items)

lemma turn_listens_route:
  "turn_listens_before_deadline T tmo (trace (snd (route_intent env uid text w))) =
     turn_listens_before_deadline T tmo (trace w)"
  by (simp add: route_intent_def Let_def turn_listens_speak turn_listens_add turn_listens_show)

lemma conversation_loop_step:
  "conversation_loop (Suc fuel) env uid T tmo w =
     (if now w - T < tmo then
        (if strip (typed_line env (lines_read w)) = []
         then Some (None, snd (transcribe_audio_from_mic_demo env Turn_listen w))
         else
           (case fst (route_intent env uid (strip (typed_line env (lines_read w)))
                        (snd (transcribe_audio_from_mic_demo env Turn_listen w))) of
              Some e \<Rightarrow>
                Some (route_intent env uid (strip (typed_line env (lines_read w)))
                        (snd (transcribe_audio_from_mic_demo env Turn_listen w)))
            | None \<Rightarrow>
                conversation_loop fuel env uid T tmo
                  (snd (route_intent env uid (strip (typed_line env (lines_read w)))
                          (snd (transcribe_audio_from_mic_demo env Turn_listen w))))))
      else Some (None, w))"
  by (simp add: transcribe_audio_from_mic_demo_def split: prod.split option.split)

lemma turn_listens_loop:
  "turn_listens_before_deadline T tmo (trace w) \<Longrightarrow>
   conversation_loop fuel env uid T tmo w = Some (e, w') \<Longrightarrow>
   turn_listens_before_deadline T tmo (trace w')"
proof (induction fuel arbitrary: w)
  case 0
  then show ?case by simp
next
  case (Suc fuel)
  show ?case
  proof (cases "now w - T < tmo")
    case False
    with Suc.prems show ?thesis by simp
  next
    case True
    define w1 where "w1 = snd (transcribe_audio_from_mic_demo env Turn_listen w)"
    define heard where "heard = strip (typed_line env (lines_read w))"
    define r where "r = route_intent env uid heard w1"
    have tr: "trace w1 = trace w @ [Listen Turn_listen (now w)]"
      by (simp add: w1_def transcribe_audio_from_mic_demo_def)
    have inv1: "turn_listens_before_deadline T tmo (trace w1)"
      using Suc.prems(1) True
      by (simp add: tr turn_listens_append) (simp add: turn_listens_before_deadline_def)
    have inv2: "turn_listens_before_deadline T tmo (trace (snd r))"
      using inv1 by (simp add: r_def turn_listens_route)
    have step: "conversation_loop (Suc fuel) env uid T tmo w =
        (if heard = [] then Some (None, w1)
         else (case fst r of
                 Some e \<Rightarrow> Some r
               | None \<Rightarrow> conversation_loop fuel env uid T tmo (snd r)))"
      unfolding conversation_loop_step w1_def heard_def r_def using True by simp
    show ?thesis
    proof (cases "heard = []")
      case True
      with step Suc.prems(2) inv1 show ?thesis by simp
    next
      case False
      show ?thesis
      proof (cases "fst r")
        case (Some x)
        with step False Suc.prems(2) have "r = (e, w')" by simp
        with inv2 show ?thesis by simp
      next
        case None
        with step False Suc.prems(2)
        have "conversation_loop fuel env uid T tmo (snd r) = Some (e, w')" by simp
        with inv2 show ?thesis by (rule Suc.IH)
      qed
    qed
  qed
qed

text \<open>
  The loop ends within the fuel when the clock moves: if speaking takes no negative time
  and every listen blocks for at least \<open>delta > 0\<close> seconds, some fuel is enough.
\<close>

lemma now_speak: "0 \<le> speak_secs env m \<Longrightarrow> now w \<le> now (speak env m w)"
  by (simp add: speak_def)

lemma now_speak_items:
  assumes "\<And>m. 0 \<le> speak_secs env m"
  shows "now w \<le> now (snd (speak_items env xs w))"
proof (induction xs arbitrary: w)
  case Nil
  show ?case by simp
next
  case (Cons x xs)
  obtain ttl nts ts where x: "x = (ttl, nts, ts)" by (cases x) auto
  show ?case
  proof (cases "fromtimestamp env ts")
    case (Inl e)
    then show ?thesis by (simp add: x)
  next
    case (Inr when_str)
    have "now w \<le> now (speak env (ttl @ '' at '' @ when_str) w)"
      using assms by (rule now_speak)
    also have "\<dots> \<le> now (snd (speak_items env xs (speak env (ttl @ '' at '' @ when_str) w)))"
      by (rule Cons.IH)
    finally show ?thesis using Inr by (simp add: x)
  qed
qed

lemma now_route_intent:
  assumes sp: "\<And>m. 0 \<le> speak_secs env m" and li: "\<And>n. 0 \<le> listen_secs env n"
  shows "now w \<le> now (snd (route_intent env uid heard w))"
proof -
  have a: "now w \<le> now (handle_add_schedule env uid heard w)"
    using sp [of "''When should I remind you? Please say a date and time.''"]
          sp [of "''I couldn't understand the time.''"] li [of "lines_read w"]
          sp [of "''Okay '' @ em_dash @ '' scheduled: '' @ heard @ '' at '' @ strftime env d" for d]
    by (simp add: handle_add_schedule_def extract_datetime_from_text_def add_schedule_def Let_def
          transcribe_audio_from_mic_demo_def speak_def split: option.split)
  have "now w \<le> now (speak env ''Here are your upcoming items:'' w)"
    using sp by (rule now_speak)
  also have "\<dots> \<le> now (snd (speak_items env (get_user_upcoming (db w) uid 10)
                                (speak env ''Here are your upcoming items:'' w)))"
    using sp by (rule now_speak_items)
  finally have b: "now w \<le> now (snd (handle_show_schedule env uid w))"
    using sp [of "''You have no upcoming schedules.''"]
    by (simp add: handle_show_schedule_def Let_def now_speak)
  show ?thesis
    using a b sp by (simp add: route_intent_def Let_def now_speak)
qed

lemma conversation_loop_within_fuel:
  assumes sp: "\<And>m. 0 \<le> speak_secs env m" and li: "\<And>n. delta \<le> listen_secs env n"
    and pos: "0 < delta"
  shows "tmo - (now w - T) \<le> real fuel * delta \<Longrightarrow>
           conversation_loop (Suc fuel) env uid T tmo w \<noteq> None"
proof (induction fuel arbitrary: w)
  case 0
  then show ?case by simp
next
  case (Suc fuel)
  define w1 where "w1 = snd (transcribe_audio_from_mic_demo env Turn_listen w)"
  define heard where "heard = strip (typed_line env (lines_read w))"
  define r where "r = route_intent env uid heard w1"
  have li0: "0 \<le> listen_secs env n" for n
    using li [of n] pos by simp
  have n1: "now w + delta \<le> now w1"
    using li [of "lines_read w"] by (simp add: w1_def transcribe_audio_from_mic_demo_def)
  have n2: "now w1 \<le> now (snd r)"
    unfolding r_def using sp li0 by (rule now_route_intent)
  have "tmo - (now (snd r) - T) \<le> real fuel * delta"
    using Suc.prems n1 n2 by (simp add: algebra_simps)
  then have ih: "conversation_loop (Suc fuel) env uid T tmo (snd r) \<noteq> None"
    by (rule Suc.IH)
  have step: "conversation_loop (Suc (Suc fuel)) env uid T tmo w =
        (if now w - T < tmo then
           (if heard = [] then Some (None, w1)
            else (case fst r of
                    Some e \<Rightarrow> Some r
                  | None \<Rightarrow> conversation_loop (Suc fuel) env uid T tmo (snd r)))
         else Some (None, w))"
    unfolding conversation_loop_step [of "Suc fuel"] w1_def heard_def r_def by simp
  show ?case unfolding step using ih by (simp split: option.split)
qed

lemma conversation_loop_ends:
  assumes sp: "\<And>m. 0 \<le> speak_secs env m" and li: "\<And>n. delta \<le> listen_secs env n"
    and pos: "0 < delta"
  shows "\<exists>fuel r. conversation_loop fuel env uid T tmo w = Some r"
proof -
  obtain k :: nat where k: "(tmo - (now w - T)) / delta \<le> real k"
    using real_arch_simple by blast
  with pos have "tmo - (now w - T) \<le> real k * delta"
    by (simp add: pos_divide_le_eq)
  then have "conversation_loop (Suc k) env uid T tmo w \<noteq> None"
    using sp li pos by (rule conversation_loop_within_fuel [rotated 3])
  then obtain r where "conversation_loop (Suc k) env uid T tmo w = Some r"
    by (cases "conversation_loop (Suc k) env uid T tmo w") simp_all
  then show ?thesis by blast
qed

text \<open>
  The classifier never answers \<open>show_schedule\<close>, so no turn of the session raises, and a
  session that ends, ends without an exception.
\<close>

lemma route_intent_returns: "fst (route_intent env uid heard w) = None"
  using parse_intent_never_show [of "Some heard"] by (simp add: route_intent_def Let_def)

text \<open>
  C6, as the code has it. The deadline is measured from the start of the session and
  tested before the listen at the head of each turn: in a session that ends, every such
  listen started before \<open>session_timeout\<close> seconds had passed; once they have passed the
  loop ends at its next test; and an empty text at the head of a turn ends the loop with
  nothing spoken and nothing stored.
\<close>

theorem session_deadline_and_silence:
  "(trace w = [] \<and> conversation_session fuel env uid tmo w = Some (e, w') \<longrightarrow>
      turn_listens_before_deadline (now w + speak_secs env (greeting uid)) tmo (trace w'))
   \<and> (tmo \<le> now w - T \<longrightarrow> conversation_loop (Suc fuel) env uid T tmo w = Some (None, w))
   \<and> (now w - T < tmo \<and> strip (typed_line env (lines_read w)) = [] \<longrightarrow>
        conversation_loop (Suc fuel) env uid T tmo w =
          Some (None, w\<lparr>now := now w + listen_secs env (lines_read w),
                        lines_read := Suc (lines_read w),
                        trace := trace w @ [Listen Turn_listen (now w)]\<rparr>))"
proof -
  have a: "trace w = [] \<and> conversation_session fuel env uid tmo w = Some (e, w') \<longrightarrow>
      turn_listens_before_deadline (now w + speak_secs env (greeting uid)) tmo (trace w')"
  proof
    assume h: "trace w = [] \<and> conversation_session fuel env uid tmo w = Some (e, w')"
    let ?w1 = "speak env (greeting uid) w"
    have n: "now ?w1 = now w + speak_secs env (greeting uid)" by (simp add: speak_def)
    have "turn_listens_before_deadline (now ?w1) tmo (trace ?w1)"
      using h by (simp add: turn_listens_speak) (simp add: turn_listens_before_deadline_def)
    moreover have "conversation_loop fuel env uid (now ?w1) tmo ?w1 = Some (e, w')"
      using h by (simp add: conversation_session_def Let_def)
    ultimately have "turn_listens_before_deadline (now ?w1) tmo (trace w')"
      by (rule turn_listens_loop)
    then show "turn_listens_before_deadline (now w + speak_secs env (greeting uid)) tmo (trace w')"
      by (simp only: n)
  qed
  have b: "tmo \<le> now w - T \<longrightarrow> conversation_loop (Suc fuel) env uid T tmo w = Some (None, w)"
    by simp
  have c: "now w - T < tmo \<and> strip (typed_line env (lines_read w)) = [] \<longrightarrow>
        conversation_loop (Suc fuel) env uid T tmo w =
          Some (None, w\<lparr>now := now w + listen_secs env (lines_read w),
                        lines_read := Suc (lines_read w),
                        trace := trace w @ [Listen Turn_listen (now w)]\<rparr>)"
    by (simp add: transcribe_audio_from_mic_demo_def)
  from a b c show ?thesis by blast
qed


theorem session_deadline_and_silence_witness:
  "trace fresh_world = []
   \<and> conversation_session (Suc (Suc 0)) slow_env ''alice'' 90 fresh_world
       = Some (None, snd (the (conversation_session (Suc (Suc 0)) slow_env ''alice'' 90 fresh_world)))
   \<and> turn_listens_before_deadline 2 90
       (trace (snd (the (conversation_session (Suc (Suc 0)) slow_env ''alice'' 90 fresh_world))))
   \<and> (90::real) \<le> now delivered_world - 0
   \<and> conversation_loop (Suc 0) demo_env ''alice'' 0 90 delivered_world = Some (None, delivered_world)
   \<and> now (fresh_world\<lparr>lines_read := 2\<rparr>) - 0 < (90::real)
   \<and> strip (typed_line demo_env (lines_read (fresh_world\<lparr>lines_read := 2\<rparr>))) = []
   \<and> conversation_loop (Suc 0) demo_env ''alice'' 0 90 (fresh_world\<lparr>lines_read := 2\<rparr>)
       = Some (None, fresh_world\<lparr>now := 5, lines_read := 3, trace := [Listen Turn_listen 0]\<rparr>)"
proof -
  have i1: "parse_intent_simple (Some ''remind me to take pills'') = ''add_schedule''"
    by (simp add: parse_intent_simple_def lower_def lower_char_def char_of_eq_iff)
  have s1: "strip ''remind me to take pills'' = ''remind me to take pills''"
    by (simp add: strip_def lstrip_def rstrip_def whitespace_def)
  have s2: "strip ''9am tomorrow'' = ''9am tomorrow''"
    by (simp add: strip_def lstrip_def rstrip_def whitespace_def)
  have s4: "strip [] = []"
    by (simp add: strip_def lstrip_def rstrip_def whitespace_def)
  have g: "speak_secs slow_env (greeting ''alice'') = 2"
    by (simp add: slow_env_def demo_env_def)
  have run: "conversation_session (Suc (Suc 0)) slow_env ''alice'' 90 fresh_world
       = Some (None, snd (the (conversation_session (Suc (Suc 0)) slow_env ''alice'' 90 fresh_world)))"
    by (simp add: conversation_session_def slow_env_def demo_env_def fresh_world_def greeting_def
          display_name_def AUTHORIZED_USERS_def speak_def transcribe_audio_from_mic_demo_def
          route_intent_def handle_add_schedule_def extract_datetime_from_text_def
          add_schedule_def init_db_def Let_def i1 s1 s2)
  have e: "trace fresh_world = []" "now fresh_world = 0"
    by (simp_all add: fresh_world_def)
  show ?thesis
    using session_deadline_and_silence
            [of fresh_world "Suc (Suc 0)" slow_env "''alice''" 90 None
                "snd (the (conversation_session (Suc (Suc 0)) slow_env ''alice'' 90 fresh_world))" 0]
          session_deadline_and_silence
            [of delivered_world 0 demo_env "''alice''" 90 None delivered_world 0]
          session_deadline_and_silence
            [of "fresh_world\<lparr>lines_read := 2\<rparr>" 0 demo_env "''alice''" 90 None fresh_world 0]
          run
    by (simp add: e g s4) (simp add: demo_env_def fresh_world_def delivered_world_def s4)
qed

text \<open>
  C6 as stated covers every listen. The follow-up listen of the \<open>add_schedule\<close> branch is
  started with no test of the deadline, here 102 seconds after the start of a session of
  90 seconds; and its empty answer does not end the session, which speaks the failure
  message and listens again.
\<close>

theorem session_follow_up_listen_counterexample:
  "map_option (\<lambda>(e, w). (e, trace w))
     (conversation_session (Suc (Suc 0)) slow_env ''alice'' 90 fresh_world) =
     Some (None,
           [Speak ''Hi Alice, nice to see you. How can I help?'',
            Listen Turn_listen 2,
            Speak ''When should I remind you? Please say a date and time.'',
            Listen Follow_up_listen 104,
            Speak (''Okay '' @ em_dash @ '' scheduled: remind me to take pills at 1970-01-02 09:00'')])
   \<and> \<not> listens_before_deadline 2 90
         [Speak ''Hi Alice, nice to see you. How can I help?'',
          Listen Turn_listen 2,
          Speak ''When should I remind you? Please say a date and time.'',
          Listen Follow_up_listen 104,
          Speak (''Okay '' @ em_dash @ '' scheduled: remind me to take pills at 1970-01-02 09:00'')]
   \<and> map_option (\<lambda>(e, w). (e, trace w))
         (conversation_session (Suc (Suc (Suc 0))) silent_follow_up_env ''alice'' 90 fresh_world) =
     Some (None,
           [Speak ''Hi Alice, nice to see you. How can I help?'',
            Listen Turn_listen 2,
            Speak ''When should I remind you? Please say a date and time.'',
            Listen Follow_up_listen 9,
            Speak ''I couldn't understand the time.'',
            Listen Turn_listen 16,
            Speak ''I heard: how are you'',
            Listen Turn_listen 23])"
proof -
  have i1: "parse_intent_simple (Some ''remind me to take pills'') = ''add_schedule''"
    by (simp add: parse_intent_simple_def lower_def lower_char_def char_of_eq_iff)
  have i2: "parse_intent_simple (Some ''how are you'') = ''chat''"
    by (simp add: parse_intent_simple_def lower_def lower_char_def char_of_eq_iff)
  have s1: "strip ''remind me to take pills'' = ''remind me to take pills''"
    by (simp add: strip_def lstrip_def rstrip_def whitespace_def)
  have s2: "strip ''9am tomorrow'' = ''9am tomorrow''"
    by (simp add: strip_def lstrip_def rstrip_def whitespace_def)
  have s3: "strip ''how are you'' = ''how are you''"
    by (simp add: strip_def lstrip_def rstrip_def whitespace_def)
  have s4: "strip [] = []"
    by (simp add: strip_def lstrip_def rstrip_def whitespace_def)
  have a: "map_option (\<lambda>(e, w). (e, trace w))
     (conversation_session (Suc (Suc 0)) slow_env ''alice'' 90 fresh_world) =
     Some (None,
           [Speak ''Hi Alice, nice to see you. How can I help?'',
            Listen Turn_listen 2,
            Speak ''When should I remind you? Please say a date and time.'',
            Listen Follow_up_listen 104,
            Speak (''Okay '' @ em_dash @ '' scheduled: remind me to take pills at 1970-01-02 09:00'')])"
    by (simp add: conversation_session_def slow_env_def demo_env_def fresh_world_def greeting_def
          display_name_def AUTHORIZED_USERS_def speak_def transcribe_audio_from_mic_demo_def
          route_intent_def handle_add_schedule_def extract_datetime_from_text_def
          add_schedule_def init_db_def Let_def i1 s1 s2)
  have b: "\<not> listens_before_deadline 2 90
         [Speak ''Hi Alice, nice to see you. How can I help?'',
          Listen Turn_listen 2,
          Speak ''When should I remind you? Please say a date and time.'',
          Listen Follow_up_listen 104,
          Speak (''Okay '' @ em_dash @ '' scheduled: remind me to take pills at 1970-01-02 09:00'')]"
    by (simp add: listens_before_deadline_def)
  have c: "map_option (\<lambda>(e, w). (e, trace w))
         (conversation_session (Suc (Suc (Suc 0))) silent_follow_up_env ''alice'' 90 fresh_world) =
     Some (None,
           [Speak ''Hi Alice, nice to see you. How can I help?'',
            Listen Turn_listen 2,
            Speak ''When should I remind you? Please say a date and time.'',
            Listen Follow_up_listen 9,
            Speak ''I couldn't understand the time.'',
            Listen Turn_listen 16,
            Speak ''I heard: how are you'',
            Listen Turn_listen 23])"
    by (simp add: conversation_session_def silent_follow_up_env_def demo_env_def fresh_world_def
          greeting_def display_name_def AUTHORIZED_USERS_def speak_def
          transcribe_audio_from_mic_demo_def route_intent_def handle_add_schedule_def
          extract_datetime_from_text_def reply_with_llm_sim_def Let_def i1 i2 s1 s3 s4)
  from a b c show ?thesis by blast
qed

section \<open>The list of a user's schedules: C7\<close>

text \<open>
  What \<open>get_user_upcoming\<close> does guarantee: the rows are those of the user, ascending by
  \<open>when_ts\<close> and at most \<open>limit\<close> of them when \<open>limit\<close> is not negative; and the branch
  \<open>show_schedule\<close> speaks either that nothing is upcoming or a heading and each row in
  that order, as long as each \<open>when_ts\<close> can be formatted.
\<close>

lemma get_user_upcoming_sorted:
  "sorted (map (\<lambda>(ttl, nts, ts). ts) (get_user_upcoming s uid limit))"
proof -
  have "sorted (map when_ts (sort_key when_ts (filter (\<lambda>r. user_id r = uid) (rows s))))"
    by simp
  then have "sorted (take n (map when_ts (sort_key when_ts (filter (\<lambda>r. user_id r = uid) (rows s)))))"
    for n by (rule sorted_wrt_take)
  then show ?thesis
    by (simp add: get_user_upcoming_def Let_def comp_def take_map)
qed

lemma get_user_upcoming_bounded:
  "0 \<le> limit \<Longrightarrow> length (get_user_upcoming s uid limit) \<le> nat limit"
  by (simp add: get_user_upcoming_def Let_def)

lemma get_user_upcoming_of_user:
  "set (get_user_upcoming s uid limit) \<subseteq>
     (\<lambda>r. (title r, notes r, when_ts r)) ` {r \<in> set (rows s). user_id r = uid}"
proof -
  have "set (take n (sort_key when_ts (filter (\<lambda>r. user_id r = uid) (rows s))))
          \<subseteq> {r \<in> set (rows s). user_id r = uid}" for n
    using set_take_subset [of n "sort_key when_ts (filter (\<lambda>r. user_id r = uid) (rows s))"]
    by auto
  then show ?thesis
    by (auto simp add: get_user_upcoming_def Let_def)
qed

lemma speak_items_speaks:
  assumes "\<And>ts. fromtimestamp env ts = Inr (fmt ts)"
  shows "fst (speak_items env xs w) = None \<and>
         spoken (trace (snd (speak_items env xs w))) =
           spoken (trace w) @ map (\<lambda>(ttl, nts, ts). ttl @ '' at '' @ fmt ts) xs"
proof (induction xs arbitrary: w)
  case Nil
  show ?case by simp
next
  case (Cons x xs)
  obtain ttl nts ts where x: "x = (ttl, nts, ts)" by (cases x) auto
  show ?case
    using Cons.IH [of "speak env (ttl @ '' at '' @ fmt ts) w"]
    by (simp add: x assms trace_speak spoken_append)
qed

lemma handle_show_schedule_speaks:
  assumes "\<And>ts. fromtimestamp env ts = Inr (fmt ts)"
  shows "fst (handle_show_schedule env uid w) = None \<and>
     spoken (trace (snd (handle_show_schedule env uid w))) =
     spoken (trace w) @
     (if get_user_upcoming (db w) uid 10 = [] then [''You have no upcoming schedules.'']
      else ''Here are your upcoming items:''
           # map (\<lambda>(ttl, nts, ts). ttl @ '' at '' @ fmt ts) (get_user_upcoming (db w) uid 10))"
  using speak_items_speaks [OF assms, of "get_user_upcoming (db w) uid 10"
                              "speak env ''Here are your upcoming items:'' w"]
  by (simp add: handle_show_schedule_def Let_def trace_speak spoken_append)

text \<open>
  C7. The rows returned are claimed to be upcoming ones only, with \<open>when_ts\<close> in the
  future. The query has no condition on \<open>when_ts\<close> or \<open>notified\<close>: at second 200000 it
  returns the reminder that was due at second 118800 and has been notified, and the branch
  \<open>show_schedule\<close> speaks it as an upcoming item.
\<close>

theorem get_user_upcoming_returns_past_record:
  "when_ts delivered_row < py_int (now delivered_world)
   \<and> notified delivered_row
   \<and> get_user_upcoming (db delivered_world) ''alice'' 10 = [(''call mom'', [], 118800)]
   \<and> fst (handle_show_schedule demo_env ''alice'' delivered_world) = None
   \<and> spoken (trace (snd (handle_show_schedule demo_env ''alice'' delivered_world))) =
       [''Here are your upcoming items:'', ''call mom at 1970-01-02 09:00'']"
  by (simp add: delivered_row_def delivered_world_def py_int_def get_user_upcoming_def
        handle_show_schedule_def demo_env_def speak_def Let_def)

end
